theory Spec2Isabelle
  imports Main "HOL-Library.Word"
begin

section \<open>The copy engine of package buf (common/buf/io.go)\<close>

subsection \<open>Errors, chunks and the calls the loop makes\<close>

text \<open>
  Go error values. \<open>EOF\<close> is \<open>io.EOF\<close>, \<open>ErrReadTimeout\<close> is the package variable of
  io.go line 17, \<open>IOError\<close> is any other failure of a stream, and \<open>Wrapped\<close> is an error
  that carries another one as its inner error. Go's \<open>nil\<close> error is \<open>None\<close> of
  \<open>error option\<close>.
\<close>

datatype error = EOF | ErrReadTimeout | IOError string | Wrapped string error

text \<open>
  The chunk type (\<open>MultiBuffer\<close>) is opaque to io.go: the loop only calls \<open>IsEmpty\<close> and
  \<open>Release\<close> on it. It is the type variable \<open>'b\<close>. Every call that the loop makes on
  one of its collaborators is recorded, in order, in a trace.
\<close>

datatype 'b event =
    ReaderRead
  | TimerUpdate
  | BufferIsEmpty 'b
  | BufferRelease 'b
  | WriterWrite 'b

text \<open>
  The interfaces \<open>Reader\<close> and \<open>Writer\<close> are state machines over states \<open>'r\<close> and \<open>'w\<close>.
  \<open>Read\<close> returns Go's pair (chunk, error) and the next reader state. \<open>Write\<close> returns
  its error, the number of times the writer itself called \<open>Release\<close> on the chunk while
  it ran, and the next writer state.
\<close>

record ('b, 'r, 'w) endpoints =
  IsEmpty :: "'b \<Rightarrow> bool"
  Read :: "'r \<Rightarrow> ('b \<times> error option) \<times> 'r"
  Write :: "'w \<Rightarrow> 'b \<Rightarrow> (error option \<times> nat) \<times> 'w"

record ('b, 'r, 'w) world =
  reader :: 'r
  writer :: 'w
  trace :: "'b event list"

subsection \<open>copyInternal and Copy\<close>

datatype 's outcome = Continue 's | Return "error option" 's

text \<open>One pass through the body of the \<open>for\<close> loop of \<open>copyInternal\<close> (lines 45 to 60).\<close>

definition copyInternal_body ::
  "('b, 'r, 'w) endpoints \<Rightarrow> ('b, 'r, 'w) world \<Rightarrow> ('b, 'r, 'w) world outcome" where
  "copyInternal_body io s =
    (case Read io (reader s) of ((buffer, err), r') \<Rightarrow>
       let s1 = s\<lparr>reader := r', trace := trace s @ [ReaderRead]\<rparr> in
       if err \<noteq> None then Return err s1
       else
         let s2 = s1\<lparr>trace := trace s1 @ [TimerUpdate]\<rparr>;
             s3 = s2\<lparr>trace := trace s2 @ [BufferIsEmpty buffer]\<rparr> in
         if IsEmpty io buffer
         then Continue (s3\<lparr>trace := trace s3 @ [BufferRelease buffer]\<rparr>)
         else
           (case Write io (writer s3) buffer of ((werr, k), w') \<Rightarrow>
              let s4 = s3\<lparr>writer := w',
                         trace := trace s3 @ WriterWrite buffer # replicate k (BufferRelease buffer)\<rparr> in
              if werr \<noteq> None
              then Return werr (s4\<lparr>trace := trace s4 @ [BufferRelease buffer]\<rparr>)
              else Continue s4))"

text \<open>
  The loop has no exit but its two \<open>return\<close> statements, so it may run forever:
  \<open>None\<close> is the run that never returns.
\<close>

partial_function (option) copyInternal ::
  "('b, 'r, 'w) endpoints \<Rightarrow> ('b, 'r, 'w) world \<Rightarrow> (error option \<times> ('b, 'r, 'w) world) option" where
  "copyInternal io s =
    (case copyInternal_body io s of
       Return err s' \<Rightarrow> Some (err, s')
     | Continue s' \<Rightarrow> copyInternal io s')"

declare copyInternal.simps [code]

text \<open>
  \<open>errors.Cause\<close> is a function of package common/errors, not of io.go: \<open>Copy\<close> takes it
  as the parameter \<open>Cause\<close>. Go evaluates it only where \<open>err != nil\<close>.
\<close>

definition Copy ::
  "(error \<Rightarrow> error) \<Rightarrow> ('b, 'r, 'w) endpoints \<Rightarrow> ('b, 'r, 'w) world \<Rightarrow>
     (error option \<times> ('b, 'r, 'w) world) option" where
  "Copy Cause io s =
    (case copyInternal io s of
       None \<Rightarrow> None
     | Some (err, s') \<Rightarrow>
         (case err of
            Some e \<Rightarrow> if Cause e \<noteq> EOF then Some (err, s') else Some (None, s')
          | None \<Rightarrow> Some (None, s')))"

text \<open>The world that a pass through the body leaves behind, whichever way it ended.\<close>

fun world_of :: "'s outcome \<Rightarrow> 's" where
  "world_of (Continue s) = s"
| "world_of (Return err s) = s"

text \<open>
  The state of the loop after at most \<open>n\<close> passes through its body: \<open>Continue\<close> when
  all \<open>n\<close> passes went on to the next one, \<open>Return\<close> as soon as one of them returned.
\<close>

fun passes :: "nat \<Rightarrow> ('b, 'r, 'w) endpoints \<Rightarrow> ('b, 'r, 'w) world \<Rightarrow> ('b, 'r, 'w) world outcome" where
  "passes 0 io s = Continue s"
| "passes (Suc n) io s =
    (case copyInternal_body io s of
       Return err s' \<Rightarrow> Return err s'
     | Continue s' \<Rightarrow> passes n io s')"

subsection \<open>The factories\<close>

text \<open>
  A byte slice is a list of bytes; \<open>make([]byte, n)\<close> is \<open>n\<close> zero bytes.
\<close>

type_synonym byte = "8 word"

text \<open>
  An \<open>io.Reader\<close> handed to a factory, with the state \<open>'u\<close> of the stream behind it. The
  type assertion \<open>reader.(MultiBufferReader)\<close> of \<open>NewReader\<close> succeeds on the handles
  whose dynamic type also has the chunked read: they are the second constructor. The
  values of interface \<open>Reader\<close> that the factories build are the two structs
  \<open>readerAdpater\<close> (sic) and \<open>BytesToBufferReader\<close>, with the fields that io.go sets.
\<close>

datatype 'u io_Reader = IoReader 'u | IoMultiBufferReader 'u

datatype 'u Reader =
    readerAdpater 'u
  | BytesToBufferReader "'u io_Reader" "byte list"

definition NewReader :: "'u io_Reader \<Rightarrow> 'u Reader" where
  "NewReader r =
    (case r of
       IoMultiBufferReader mr \<Rightarrow> readerAdpater mr
     | IoReader u \<Rightarrow> BytesToBufferReader r (replicate (32 * 1024) 0))"

definition NewMergingReaderSize :: "'u io_Reader \<Rightarrow> 32 word \<Rightarrow> 'u Reader" where
  "NewMergingReaderSize r sz = BytesToBufferReader r (replicate (unat sz) 0)"

definition NewMergingReader :: "'u io_Reader \<Rightarrow> 'u Reader" where
  "NewMergingReader r = NewMergingReaderSize r (32 * 1024)"

text \<open>The same for \<open>io.Writer\<close>, \<open>MultiBufferWriter\<close> and the three writer structs.\<close>

datatype 'v io_Writer = IoWriter 'v | IoMultiBufferWriter 'v

datatype 'v Writer =
    writerAdapter 'v
  | BufferToBytesWriter "'v io_Writer"
  | mergingWriter "'v io_Writer" "byte list"

definition NewWriter :: "'v io_Writer \<Rightarrow> 'v Writer" where
  "NewWriter w =
    (case w of
       IoMultiBufferWriter mw \<Rightarrow> writerAdapter mw
     | IoWriter v \<Rightarrow> BufferToBytesWriter w)"

definition NewMergingWriterSize :: "'v io_Writer \<Rightarrow> 32 word \<Rightarrow> 'v Writer" where
  "NewMergingWriterSize w sz = mergingWriter w (replicate (unat sz) 0)"

definition NewMergingWriter :: "'v io_Writer \<Rightarrow> 'v Writer" where
  "NewMergingWriter w = NewMergingWriterSize w 4096"

text \<open>The buffer that an adapter owns, if it owns one.\<close>

fun Reader_buffer :: "'u Reader \<Rightarrow> byte list option" where
  "Reader_buffer (readerAdpater mr) = None"
| "Reader_buffer (BytesToBufferReader r buffer) = Some buffer"

fun Writer_buffer :: "'v Writer \<Rightarrow> byte list option" where
  "Writer_buffer (writerAdapter mw) = None"
| "Writer_buffer (BufferToBytesWriter w) = None"
| "Writer_buffer (mergingWriter w buffer) = Some buffer"

subsection \<open>Reading through the adapters\<close>

text \<open>
  The read of a raw stream (\<open>io.Reader\<close>): from a state and the length of the slice
  passed, the bytes stored at the front of the slice, the error and the next state. The
  native chunked read of a handle that has one returns a chunk, as its bytes, in place
  of filling a slice.
\<close>

type_synonym 'u raw_read = "'u \<Rightarrow> nat \<Rightarrow> (byte list \<times> error option) \<times> 'u"

type_synonym 'u chunk_read = "'u \<Rightarrow> (byte list \<times> error option) \<times> 'u"

fun stream_of :: "'u io_Reader \<Rightarrow> 'u" where
  "stream_of (IoReader u) = u"
| "stream_of (IoMultiBufferReader u) = u"

fun with_stream :: "'u io_Reader \<Rightarrow> 'u \<Rightarrow> 'u io_Reader" where
  "with_stream (IoReader u) u' = IoReader u'"
| "with_stream (IoMultiBufferReader u) u' = IoMultiBufferReader u'"

text \<open>
  Modelled from the spec: the \<open>Read\<close> methods of \<open>BytesToBufferReader\<close> and
  \<open>readerAdpater\<close>, which are not in io.go. Section 4.1: the scratch-buffer adapter
  issues one read into its private scratch buffer and wraps exactly the bytes returned
  into a new chunk; a zero-byte successful read yields an empty chunk; end-of-stream is
  reported as end-of-stream and every other failure as an error wrapping the cause.
  Section 4.6: the passthrough adapter forwards the call to the handle's own chunked
  read.
\<close>

definition Reader_Read :: "'u raw_read \<Rightarrow> 'u chunk_read \<Rightarrow> 'u Reader \<Rightarrow> (byte list \<times> error option) \<times> 'u Reader" where
  "Reader_Read raw native rd =
    (case rd of
       readerAdpater mr \<Rightarrow>
         (case native mr of ((mb, err), mr') \<Rightarrow> ((mb, err), readerAdpater mr'))
     | BytesToBufferReader r buffer \<Rightarrow>
         (case raw (stream_of r) (length buffer) of ((bs, err), u') \<Rightarrow>
            let buffer' = bs @ drop (length bs) buffer;
                rd' = BytesToBufferReader (with_stream r u') buffer' in
            (case err of
               None \<Rightarrow> ((take (length bs) buffer', None), rd')
             | Some e \<Rightarrow>
                 (([], Some (if e = EOF then EOF else Wrapped ''failed to read'' e)), rd'))))"

text \<open>
  \<open>ToBytesReader\<close> (io.go line 101) builds a \<open>bufferToBytesReader\<close> with its \<open>stream\<close>
  field set and the rest at the zero value.
  Modelled from the spec: the struct's other field and its \<open>Read\<close> method, which are
  not in io.go. Section 4.2: the adapter keeps a held-over partial chunk across calls
  when the caller asks for less than the chunk still holds, and fetches the next chunk
  only once the held one is consumed.
\<close>

datatype 'u bufferToBytesReader = bufferToBytesReader "'u Reader" "byte list"

definition ToBytesReader :: "'u Reader \<Rightarrow> 'u bufferToBytesReader" where
  "ToBytesReader stream = bufferToBytesReader stream []"

fun bufferToBytesReader_Read ::
  "'u raw_read \<Rightarrow> 'u chunk_read \<Rightarrow> 'u bufferToBytesReader raw_read" where
  "bufferToBytesReader_Read raw native (bufferToBytesReader stream current) n =
    (if current = [] then
       (case Reader_Read raw native stream of
          ((mb, Some e), stream') \<Rightarrow> (([], Some e), bufferToBytesReader stream' [])
        | ((mb, None), stream') \<Rightarrow> ((take n mb, None), bufferToBytesReader stream' (drop n mb)))
     else ((take n current, None), bufferToBytesReader stream (drop n current)))"

text \<open>
  Reading \<open>n\<close> bytes from a byte reader: read again and again into what is left of
  the slice until \<open>n\<close> bytes have arrived or a read reports an error. A reader that
  keeps returning nothing without an error makes this run forever (\<open>None\<close>).
\<close>

partial_function (option) read_n ::
  "'s raw_read \<Rightarrow> byte list \<Rightarrow> 's \<Rightarrow> nat \<Rightarrow> (byte list \<times> error option \<times> 's) option" where
  "read_n rd acc s n =
    (if n \<le> length acc then Some (acc, None, s)
     else
       (case rd s (n - length acc) of
          ((bs, Some e), s') \<Rightarrow> Some (acc @ bs, Some e, s')
        | ((bs, None), s') \<Rightarrow> read_n rd (acc @ bs) s' n))"

declare read_n.simps [code]



text \<open>
  Reading several times in a row, \<open>n\<close> bytes at each turn for the \<open>n\<close> of a list: the
  byte sequences that the turns yield. The pieces of the given lengths cut from the
  front of a byte sequence are what the turns should yield.
\<close>

fun read_each :: "'s raw_read \<Rightarrow> 's \<Rightarrow> nat list \<Rightarrow> byte list list option" where
  "read_each rd s [] = Some []"
| "read_each rd s (n # ns) =
    (case read_n rd [] s n of
       None \<Rightarrow> None
     | Some (bs, err, s') \<Rightarrow>
         (case read_each rd s' ns of None \<Rightarrow> None | Some bss \<Rightarrow> Some (bs # bss)))"








subsection \<open>Writing through the adapters\<close>

text \<open>
  The chunked write of a handle that has one natively (\<open>MultiBufferWriter\<close>): from a
  state and a chunk, the error, the number of times the write released the chunk, and
  the next state, as for the sink of the copy loop.
\<close>

type_synonym 'v chunk_write = "'v \<Rightarrow> byte list \<Rightarrow> (error option \<times> nat) \<times> 'v"

text \<open>
  Modelled from the spec: the \<open>Write\<close> method of \<open>writerAdapter\<close>, which is not in io.go.
  Section 4.6: the passthrough adapter forwards the call to the handle's own chunked
  write. The \<open>Write\<close> methods of \<open>BufferToBytesWriter\<close> and \<open>mergingWriter\<close> (sections 4.3
  and 4.4) are not in io.go either; nothing below depends on them and they are the
  parameter \<open>other\<close>.
\<close>

definition Writer_Write ::
  "'v chunk_write \<Rightarrow> ('v Writer \<Rightarrow> byte list \<Rightarrow> (error option \<times> nat) \<times> 'v Writer) \<Rightarrow>
     'v Writer \<Rightarrow> byte list \<Rightarrow> (error option \<times> nat) \<times> 'v Writer" where
  "Writer_Write native other wr mb =
    (case wr of
       writerAdapter mw \<Rightarrow>
         (case native mw mb of (res, mw') \<Rightarrow> (res, writerAdapter mw'))
     | BufferToBytesWriter w \<Rightarrow> other wr mb
     | mergingWriter w buffer \<Rightarrow> other wr mb)"

subsection \<open>Concrete endpoints\<close>

text \<open>
  A source that hands out the chunks of a list and then reports the error \<open>final\<close>
  for ever, and a sink that accumulates what it is given, refuses a chunk listed in
  \<open>bad\<close> with the error paired with it, and releases every chunk \<open>k\<close> times itself.
\<close>

definition list_Read :: "error \<Rightarrow> string list \<Rightarrow> (string \<times> error option) \<times> string list" where
  "list_Read final r = (case r of [] \<Rightarrow> (([], Some final), []) | b # bs \<Rightarrow> ((b, None), bs))"

definition acc_Write ::
  "(string \<times> error) list \<Rightarrow> nat \<Rightarrow> string list \<Rightarrow> string \<Rightarrow> (error option \<times> nat) \<times> string list" where
  "acc_Write bad k w b =
    (case map_of bad b of
       Some e \<Rightarrow> ((Some e, k), w)
     | None \<Rightarrow> ((None, k), w @ [b]))"

definition list_io :: "error \<Rightarrow> (string \<times> error) list \<Rightarrow> nat \<Rightarrow> (string, string list, string list) endpoints" where
  "list_io final bad k = \<lparr>IsEmpty = (\<lambda>b. b = []), Read = list_Read final, Write = acc_Write bad k\<rparr>"

definition start :: "string list \<Rightarrow> (string, string list, string list) world" where
  "start chunks = \<lparr>reader = chunks, writer = [], trace = []\<rparr>"

text \<open>A root-cause function for the concrete runs: it follows inner errors to the end.\<close>

fun root_cause :: "error \<Rightarrow> error" where
  "root_cause (Wrapped msg e) = root_cause e"
| "root_cause e = e"

text \<open>
  A stream over a list of bytes that returns at most \<open>k + 1\<close> of them per read and
  \<open>io.EOF\<close> at the end, with its native chunked read, and the bytes of \<open>hello\<close>.
\<close>

definition burst_Read :: "nat \<Rightarrow> byte list raw_read" where
  "burst_Read k u n =
    (if u = [] then (([], Some EOF), [])
     else ((take (min n (Suc k)) u, None), drop (min n (Suc k)) u))"

definition burst_chunks :: "nat \<Rightarrow> byte list chunk_read" where
  "burst_chunks k u =
    (if u = [] then (([], Some EOF), [])
     else ((take (Suc k) u, None), drop (Suc k) u))"

text \<open>
  A stream that returns nothing, without an error, \<open>p\<close> times before it delivers, and
  twice again after every delivery.
\<close>

definition pausing_Read :: "(nat \<times> byte list) raw_read" where
  "pausing_Read s n =
    (case s of (p, u) \<Rightarrow>
       if 0 < p then (([], None), (p - 1, u))
       else if u = [] then (([], Some EOF), (0, []))
       else ((take n u, None), (2, drop n u)))"

definition hello :: "byte list" where
  "hello = [104, 101, 108, 108, 111]"


definition zero_chunks :: "byte list chunk_read" where
  "zero_chunks u = (([0], None), u)"

definition shy_Read :: "byte list raw_read" where
  "shy_Read u n =
    (if 8 < n then (([], None), u)
     else if u = [] then (([], Some EOF), [])
     else ((take n u, None), drop n u))"

section \<open>Properties\<close>

lemma copyInternal_Continue:
  "copyInternal_body io s = Continue s' \<Longrightarrow> copyInternal io s = copyInternal io s'"
  by (subst copyInternal.simps) simp

lemma copyInternal_Return:
  "copyInternal_body io s = Return err s' \<Longrightarrow> copyInternal io s = Some (err, s')"
  by (subst copyInternal.simps) simp

lemma passes_Continue:
  "passes n io s = Continue s' \<Longrightarrow> copyInternal io s = copyInternal io s'"
proof (induction n arbitrary: s)
  case 0
  then show ?case by simp
next
  case (Suc n)
  then obtain s1 where b: "copyInternal_body io s = Continue s1" and p: "passes n io s1 = Continue s'"
    by (auto split: outcome.splits)
  from Suc.IH [OF p] copyInternal_Continue [OF b] show ?case by simp
qed

lemma body_read_error:
  "Read io (reader s) = ((buffer, Some e), r') \<Longrightarrow>
     copyInternal_body io s = Return (Some e) (s\<lparr>reader := r', trace := trace s @ [ReaderRead]\<rparr>)"
  by (simp add: copyInternal_body_def)

lemma body_write_error:
  "Read io (reader s) = ((buffer, None), r') \<Longrightarrow> \<not> IsEmpty io buffer \<Longrightarrow>
   Write io (writer s) buffer = ((Some e, k), w') \<Longrightarrow>
     copyInternal_body io s =
       Return (Some e) (s\<lparr>reader := r', writer := w',
          trace := trace s @ [ReaderRead, TimerUpdate, BufferIsEmpty buffer, WriterWrite buffer]
                     @ replicate k (BufferRelease buffer) @ [BufferRelease buffer]\<rparr>)"
  by (simp add: copyInternal_body_def)

lemma body_trace:
  "\<exists>ev. trace (world_of (copyInternal_body io s)) = trace s @ ev
        \<and> (\<forall>b. WriterWrite b \<in> set ev \<longrightarrow> \<not> IsEmpty io b)"
  by (auto simp: copyInternal_body_def Let_def split: prod.splits)

lemma passes_trace:
  "\<exists>ev. trace (world_of (passes n io s)) = trace s @ ev
        \<and> (\<forall>b. WriterWrite b \<in> set ev \<longrightarrow> \<not> IsEmpty io b)"
proof (induction n arbitrary: s)
  case 0
  show ?case by simp
next
  case (Suc n)
  obtain ev where ev: "trace (world_of (copyInternal_body io s)) = trace s @ ev"
      "\<forall>b. WriterWrite b \<in> set ev \<longrightarrow> \<not> IsEmpty io b"
    using body_trace by blast
  show ?case
  proof (cases "copyInternal_body io s")
    case (Continue s1)
    obtain ev' where ev': "trace (world_of (passes n io s1)) = trace s1 @ ev'"
      "\<forall>b. WriterWrite b \<in> set ev' \<longrightarrow> \<not> IsEmpty io b"
      using Suc.IH by blast
    have "trace (world_of (passes (Suc n) io s)) = trace s @ (ev @ ev')"
      using Continue ev(1) ev'(1) by simp
    moreover have "\<forall>b. WriterWrite b \<in> set (ev @ ev') \<longrightarrow> \<not> IsEmpty io b"
      using ev(2) ev'(2) by auto
    ultimately show ?thesis by blast
  next
    case (Return err s1)
    then show ?thesis using ev by auto
  qed
qed

lemma copyInternal_passes_aux:
  assumes "copyInternal io s = Some y"
  shows "\<exists>n. passes n io s = Return (fst y) (snd y)"
proof (rule copyInternal.raw_induct
    [where P = "\<lambda>io s y. \<exists>n. passes n io s = Return (fst y) (snd y)", OF _ assms])
  fix f :: "('a, 'b, 'c) endpoints \<Rightarrow> ('a, 'b, 'c) world \<Rightarrow> (error option \<times> ('a, 'b, 'c) world) option"
    and io s y
  assume IH: "\<And>io s y. f io s = Some y \<Longrightarrow> \<exists>n. passes n io s = Return (fst y) (snd y)"
    and eq: "(case copyInternal_body io s of Continue s' \<Rightarrow> f io s'
              | Return err s' \<Rightarrow> Some (err, s')) = Some y"
  show "\<exists>n. passes n io s = Return (fst y) (snd y)"
  proof (cases "copyInternal_body io s")
    case (Continue s1)
    with eq have "f io s1 = Some y" by simp
    then obtain n where "passes n io s1 = Return (fst y) (snd y)" using IH by blast
    with Continue have "passes (Suc n) io s = Return (fst y) (snd y)" by simp
    then show ?thesis ..
  next
    case (Return e s1)
    with eq have "passes (Suc 0) io s = Return (fst y) (snd y)" by auto
    then show ?thesis ..
  qed
qed

lemma copyInternal_passes:
  "copyInternal io s = Some (err, t) \<Longrightarrow> \<exists>n. passes n io s = Return err t"
  using copyInternal_passes_aux [of io s "(err, t)"] by simp

lemma passes_Return:
  "passes n io s = Return err t \<Longrightarrow> copyInternal io s = Some (err, t)"
proof (induction n arbitrary: s)
  case 0
  then show ?case by simp
next
  case (Suc n)
  show ?case
  proof (cases "copyInternal_body io s")
    case (Continue s1)
    with Suc.prems have "passes n io s1 = Return err t" by simp
    then have "copyInternal io s1 = Some (err, t)" by (rule Suc.IH)
    with copyInternal_Continue [OF Continue] show ?thesis by simp
  next
    case (Return e s1)
    with Suc.prems have "e = err" "s1 = t" by simp_all
    with copyInternal_Return [OF Return] show ?thesis by simp
  qed
qed

subsection \<open>End of stream and errors\<close>

text \<open>
  C1. When the source's read reports end-of-stream (an error whose root cause is
  \<open>io.EOF\<close>), after any number \<open>n\<close> of passes that went through, \<open>Copy\<close> returns and
  its result is \<open>nil\<close>. The final world is the one of the last pass with the failed
  read recorded.
\<close>

theorem Copy_end_of_stream_is_success:
  assumes "passes n io s = Continue s'"
      and "Read io (reader s') = ((buffer, Some e), r')"
      and "Cause e = EOF"
  shows "Copy Cause io s = Some (None, s'\<lparr>reader := r', trace := trace s' @ [ReaderRead]\<rparr>)"
proof -
  have "copyInternal io s = copyInternal io s'"
    using assms(1) by (rule passes_Continue)
  also have "\<dots> = Some (Some e, s'\<lparr>reader := r', trace := trace s' @ [ReaderRead]\<rparr>)"
    using assms(2) by (intro copyInternal_Return body_read_error)
  finally show ?thesis
    using assms(3) by (simp add: Copy_def)
qed

text \<open>
  The run of the source \<open>hello\<close> followed by end-of-stream, into an accumulating sink.
\<close>

theorem Copy_end_of_stream_is_success_witness:
  "passes 1 (list_io EOF [] 1) (start [''hello'']) =
     Continue \<lparr>reader = [], writer = [''hello''],
       trace = [ReaderRead, TimerUpdate, BufferIsEmpty ''hello'', WriterWrite ''hello'',
                BufferRelease ''hello'']\<rparr>
   \<and> Read (list_io EOF [] 1) [] = (([], Some EOF), [])
   \<and> root_cause EOF = EOF
   \<and> Copy root_cause (list_io EOF [] 1) (start [''hello'']) =
       Some (None, \<lparr>reader = [], writer = [''hello''],
         trace = [ReaderRead, TimerUpdate, BufferIsEmpty ''hello'', WriterWrite ''hello'',
                  BufferRelease ''hello'', ReaderRead]\<rparr>)"
  using Copy_end_of_stream_is_success [of 1 "list_io EOF [] 1" "start [''hello'']"
      "\<lparr>reader = [], writer = [''hello''],
       trace = [ReaderRead, TimerUpdate, BufferIsEmpty ''hello'', WriterWrite ''hello'',
                BufferRelease ''hello'']\<rparr>" "[]" EOF "[]" root_cause]
  by (simp add: list_io_def start_def list_Read_def acc_Write_def copyInternal_body_def)

text \<open>
  C2, as amended. When the sink's Write fails on a non-empty chunk with an error whose
  root cause is not \<open>io.EOF\<close>, \<open>Copy\<close> returns exactly that error; the loop ends in that
  pass: the reader and the writer are left as that pass's Read and Write left them, and
  the pass made one Read and one Write.
\<close>

theorem Copy_write_failure_is_returned:
  assumes "passes n io s = Continue s'"
      and "Read io (reader s') = ((buffer, None), r')"
      and "\<not> IsEmpty io buffer"
      and "Write io (writer s') buffer = ((Some e, k), w')"
      and "Cause e \<noteq> EOF"
  shows "\<exists>ev. Copy Cause io s =
           Some (Some e, s'\<lparr>reader := r', writer := w', trace := trace s' @ ev\<rparr>)
         \<and> length (filter (\<lambda>x. x = ReaderRead) ev) = 1
         \<and> length (filter (\<lambda>x. x = WriterWrite buffer) ev) = 1"
proof -
  let ?ev = "[ReaderRead, TimerUpdate, BufferIsEmpty buffer, WriterWrite buffer]
                     @ replicate k (BufferRelease buffer) @ [BufferRelease buffer]"
  have "copyInternal io s = copyInternal io s'"
    using assms(1) by (rule passes_Continue)
  also have "\<dots> = Some (Some e, s'\<lparr>reader := r', writer := w', trace := trace s' @ ?ev\<rparr>)"
    using assms(2,3,4) by (intro copyInternal_Return body_write_error)
  finally have "Copy Cause io s = Some (Some e, s'\<lparr>reader := r', writer := w', trace := trace s' @ ?ev\<rparr>)"
    using assms(5) by (simp add: Copy_def)
  moreover have "length (filter (\<lambda>x. x = ReaderRead) ?ev) = 1" by simp
  moreover have "length (filter (\<lambda>x. x = WriterWrite buffer) ?ev) = 1" by simp
  ultimately show ?thesis by blast
qed

text \<open>
  A sink that accepts \<open>ok\<close> and fails on \<open>x\<close> with a broken pipe.
\<close>

theorem Copy_write_failure_is_returned_witness:
  "passes 1 (list_io EOF [(''x'', IOError ''broken pipe'')] 1) (start [''ok'', ''x'']) =
     Continue \<lparr>reader = [''x''], writer = [''ok''],
       trace = [ReaderRead, TimerUpdate, BufferIsEmpty ''ok'', WriterWrite ''ok'', BufferRelease ''ok'']\<rparr>
   \<and> Read (list_io EOF [(''x'', IOError ''broken pipe'')] 1) [''x''] = ((''x'', None), [])
   \<and> \<not> IsEmpty (list_io EOF [(''x'', IOError ''broken pipe'')] 1) ''x''
   \<and> Write (list_io EOF [(''x'', IOError ''broken pipe'')] 1) [''ok''] ''x'' =
        ((Some (IOError ''broken pipe''), 1), [''ok''])
   \<and> root_cause (IOError ''broken pipe'') \<noteq> EOF
   \<and> map_option fst (Copy root_cause (list_io EOF [(''x'', IOError ''broken pipe'')] 1) (start [''ok'', ''x'']))
        = Some (Some (IOError ''broken pipe''))"
  using Copy_write_failure_is_returned
    [where n = 1 and io = "list_io EOF [(''x'', IOError ''broken pipe'')] 1"
       and s = "start [''ok'', ''x'']"
       and s' = "\<lparr>reader = [''x''], writer = [''ok''],
         trace = [ReaderRead, TimerUpdate, BufferIsEmpty ''ok'', WriterWrite ''ok'', BufferRelease ''ok'']\<rparr>"
       and buffer = "''x''" and r' = "[]" and e = "IOError ''broken pipe''" and k = 1
       and w' = "[''ok'']" and Cause = root_cause]
  by (auto simp: list_io_def start_def list_Read_def acc_Write_def copyInternal_body_def)

text \<open>
  C2 as it is stated fails for a sink whose Write fails with \<open>io.EOF\<close>: the write
  fails on the non-empty chunk \<open>x\<close>, and \<open>Copy\<close> returns \<open>nil\<close>, not the sink's error.
\<close>

theorem Copy_write_failure_is_returned_counterexample:
  "Write (list_io EOF [(''x'', EOF)] 0) (writer (start [''x''])) ''x'' = ((Some EOF, 0), [])
   \<and> \<not> IsEmpty (list_io EOF [(''x'', EOF)] 0) ''x''
   \<and> map_option fst (Copy root_cause (list_io EOF [(''x'', EOF)] 0) (start [''x''])) = Some None
   \<and> map_option fst (Copy root_cause (list_io EOF [(''x'', EOF)] 0) (start [''x''])) \<noteq> Some (Some EOF)"
  by code_simp

text \<open>
  C10. When the sink's Write fails with an error whose root cause is \<open>io.EOF\<close>,
  \<open>copyInternal\<close> returns that error and \<open>Copy\<close> turns it into \<open>nil\<close>.
\<close>

theorem Copy_write_end_of_stream_is_success:
  assumes "passes n io s = Continue s'"
      and "Read io (reader s') = ((buffer, None), r')"
      and "\<not> IsEmpty io buffer"
      and "Write io (writer s') buffer = ((Some e, k), w')"
      and "Cause e = EOF"
  shows "\<exists>t. copyInternal io s = Some (Some e, t) \<and> Copy Cause io s = Some (None, t)"
proof -
  have "copyInternal io s = copyInternal io s'"
    using assms(1) by (rule passes_Continue)
  also have "\<dots> = Some (Some e, s'\<lparr>reader := r', writer := w',
          trace := trace s' @ [ReaderRead, TimerUpdate, BufferIsEmpty buffer, WriterWrite buffer]
                     @ replicate k (BufferRelease buffer) @ [BufferRelease buffer]\<rparr>)"
    using assms(2,3,4) by (intro copyInternal_Return body_write_error)
  finally show ?thesis
    using assms(5) by (simp add: Copy_def)
qed

text \<open>
  A sink that fails on \<open>x\<close> with an error wrapping \<open>io.EOF\<close>.
\<close>

theorem Copy_write_end_of_stream_is_success_witness:
  "passes 1 (list_io EOF [(''x'', Wrapped ''closed'' EOF)] 1) (start [''ok'', ''x'']) =
     Continue \<lparr>reader = [''x''], writer = [''ok''],
       trace = [ReaderRead, TimerUpdate, BufferIsEmpty ''ok'', WriterWrite ''ok'', BufferRelease ''ok'']\<rparr>
   \<and> Read (list_io EOF [(''x'', Wrapped ''closed'' EOF)] 1) [''x''] = ((''x'', None), [])
   \<and> \<not> IsEmpty (list_io EOF [(''x'', Wrapped ''closed'' EOF)] 1) ''x''
   \<and> Write (list_io EOF [(''x'', Wrapped ''closed'' EOF)] 1) [''ok''] ''x'' =
        ((Some (Wrapped ''closed'' EOF), 1), [''ok''])
   \<and> root_cause (Wrapped ''closed'' EOF) = EOF
   \<and> map_option fst (copyInternal (list_io EOF [(''x'', Wrapped ''closed'' EOF)] 1) (start [''ok'', ''x'']))
        = Some (Some (Wrapped ''closed'' EOF))
   \<and> map_option fst (Copy root_cause (list_io EOF [(''x'', Wrapped ''closed'' EOF)] 1) (start [''ok'', ''x'']))
        = Some None"
  using Copy_write_end_of_stream_is_success
    [where n = 1 and io = "list_io EOF [(''x'', Wrapped ''closed'' EOF)] 1"
       and s = "start [''ok'', ''x'']"
       and s' = "\<lparr>reader = [''x''], writer = [''ok''],
         trace = [ReaderRead, TimerUpdate, BufferIsEmpty ''ok'', WriterWrite ''ok'', BufferRelease ''ok'']\<rparr>"
       and buffer = "''x''" and r' = "[]" and e = "Wrapped ''closed'' EOF" and k = 1
       and w' = "[''ok'']" and Cause = root_cause]
  by (auto simp: list_io_def start_def list_Read_def acc_Write_def copyInternal_body_def)

text \<open>
  C4. When the source's read reports \<open>ErrReadTimeout\<close>, whose root cause is not
  \<open>io.EOF\<close>, \<open>Copy\<close> returns and its result is that timeout error, not \<open>nil\<close>.
\<close>

theorem Copy_read_timeout_is_returned:
  assumes "passes n io s = Continue s'"
      and "Read io (reader s') = ((buffer, Some ErrReadTimeout), r')"
      and "Cause ErrReadTimeout \<noteq> EOF"
  shows "Copy Cause io s =
           Some (Some ErrReadTimeout, s'\<lparr>reader := r', trace := trace s' @ [ReaderRead]\<rparr>)"
proof -
  have "copyInternal io s = copyInternal io s'"
    using assms(1) by (rule passes_Continue)
  also have "\<dots> = Some (Some ErrReadTimeout, s'\<lparr>reader := r', trace := trace s' @ [ReaderRead]\<rparr>)"
    using assms(2) by (intro copyInternal_Return body_read_error)
  finally show ?thesis
    using assms(3) by (simp add: Copy_def)
qed

text \<open>
  A source that times out after one chunk.
\<close>

theorem Copy_read_timeout_is_returned_witness:
  "passes 1 (list_io ErrReadTimeout [] 1) (start [''ab'']) =
     Continue \<lparr>reader = [], writer = [''ab''],
       trace = [ReaderRead, TimerUpdate, BufferIsEmpty ''ab'', WriterWrite ''ab'', BufferRelease ''ab'']\<rparr>
   \<and> Read (list_io ErrReadTimeout [] 1) [] = (([], Some ErrReadTimeout), [])
   \<and> root_cause ErrReadTimeout \<noteq> EOF
   \<and> Copy root_cause (list_io ErrReadTimeout [] 1) (start [''ab'']) =
       Some (Some ErrReadTimeout, \<lparr>reader = [], writer = [''ab''],
         trace = [ReaderRead, TimerUpdate, BufferIsEmpty ''ab'', WriterWrite ''ab'',
                  BufferRelease ''ab'', ReaderRead]\<rparr>)"
  using Copy_read_timeout_is_returned
    [where n = 1 and io = "list_io ErrReadTimeout [] 1" and s = "start [''ab'']"
       and s' = "\<lparr>reader = [], writer = [''ab''],
         trace = [ReaderRead, TimerUpdate, BufferIsEmpty ''ab'', WriterWrite ''ab'', BufferRelease ''ab'']\<rparr>"
       and buffer = "[]" and r' = "[]" and Cause = root_cause]
  by (simp add: list_io_def start_def list_Read_def acc_Write_def copyInternal_body_def)

subsection \<open>Releases, the timer and empty chunks\<close>

text \<open>
  C3, as amended. When the sink's Write fails inside the loop, the loop itself releases
  the chunk once after Write has returned, whatever the writer did: from the Write call
  to the return the chunk is released \<open>k + 1\<close> times, where \<open>k\<close> is the number of
  releases by the writer. The total is one only for a writer that does not release the
  chunk itself.
\<close>

theorem write_failure_release_count:
  assumes "passes n io s = Continue s'"
      and "Read io (reader s') = ((buffer, None), r')"
      and "\<not> IsEmpty io buffer"
      and "Write io (writer s') buffer = ((Some e, k), w')"
  shows "let t = s'\<lparr>reader := r', writer := w',
                   trace := trace s' @ [ReaderRead, TimerUpdate, BufferIsEmpty buffer, WriterWrite buffer]
                              @ replicate k (BufferRelease buffer) @ [BufferRelease buffer]\<rparr>
         in copyInternal io s = Some (Some e, t)
            \<and> count_list (drop (length (trace s')) (trace t)) (BufferRelease buffer) = k + 1"
proof -
  let ?t = "s'\<lparr>reader := r', writer := w',
          trace := trace s' @ [ReaderRead, TimerUpdate, BufferIsEmpty buffer, WriterWrite buffer]
                     @ replicate k (BufferRelease buffer) @ [BufferRelease buffer]\<rparr>"
  have "copyInternal io s = copyInternal io s'"
    using assms(1) by (rule passes_Continue)
  also have "\<dots> = Some (Some e, ?t)"
    using assms(2,3,4) by (intro copyInternal_Return body_write_error)
  finally have "copyInternal io s = Some (Some e, ?t)" .
  moreover have "count_list (replicate k (BufferRelease buffer)) (BufferRelease buffer) = k"
    by (induction k) simp_all
  then have "count_list (drop (length (trace s')) (trace ?t)) (BufferRelease buffer) = k + 1"
    by simp
  ultimately show ?thesis by (simp add: Let_def)
qed

text \<open>
  A sink that fails without releasing the chunk: one release in all.
\<close>

theorem write_failure_release_count_witness:
  "passes 0 (list_io EOF [(''x'', IOError ''reset'')] 0) (start [''x'']) = Continue (start [''x''])
   \<and> Read (list_io EOF [(''x'', IOError ''reset'')] 0) (reader (start [''x''])) = ((''x'', None), [])
   \<and> \<not> IsEmpty (list_io EOF [(''x'', IOError ''reset'')] 0) ''x''
   \<and> Write (list_io EOF [(''x'', IOError ''reset'')] 0) (writer (start [''x''])) ''x'' =
        ((Some (IOError ''reset''), 0), [])
   \<and> copyInternal (list_io EOF [(''x'', IOError ''reset'')] 0) (start [''x'']) =
        Some (Some (IOError ''reset''), \<lparr>reader = [], writer = [],
          trace = [ReaderRead, TimerUpdate, BufferIsEmpty ''x'', WriterWrite ''x'', BufferRelease ''x'']\<rparr>)
   \<and> count_list [ReaderRead, TimerUpdate, BufferIsEmpty ''x'', WriterWrite ''x'', BufferRelease ''x'']
         (BufferRelease ''x'') = 0 + 1"
  using write_failure_release_count
    [where n = 0 and io = "list_io EOF [(''x'', IOError ''reset'')] 0"
       and s = "start [''x'']" and s' = "start [''x'']"
       and buffer = "''x''" and r' = "[]" and e = "IOError ''reset''" and k = 0
       and w' = "[]"]
  by (simp add: list_io_def start_def list_Read_def acc_Write_def Let_def)

text \<open>
  C3 as it is stated fails for a sink that releases the chunk itself before it reports
  the failure: the chunk \<open>x\<close> is released twice.
\<close>

theorem write_failure_release_count_counterexample:
  "copyInternal (list_io EOF [(''x'', IOError ''broken pipe'')] 1) (start [''x'']) =
     Some (Some (IOError ''broken pipe''),
       \<lparr>reader = [], writer = [],
        trace = [ReaderRead, TimerUpdate, BufferIsEmpty ''x'', WriterWrite ''x'',
                 BufferRelease ''x'', BufferRelease ''x'']\<rparr>)
   \<and> count_list [ReaderRead, TimerUpdate, BufferIsEmpty ''x'', WriterWrite ''x'',
                 BufferRelease ''x'', BufferRelease ''x''] (BufferRelease ''x'') = 2"
  by code_simp



text \<open>
  C6. A pass that reads an empty chunk releases it and goes on to the next pass, with
  the writer untouched and no Write recorded. Over a whole run, after any number of
  passes and at the return of \<open>copyInternal\<close>, every chunk that a recorded Write was
  given is non-empty.
\<close>

theorem empty_chunk_released_never_written:
  "(Read io (reader s) = ((buffer, None), r') \<longrightarrow> IsEmpty io buffer \<longrightarrow>
      copyInternal_body io s =
        Continue (s\<lparr>reader := r',
           trace := trace s @ [ReaderRead, TimerUpdate, BufferIsEmpty buffer, BufferRelease buffer]\<rparr>))
   \<and> (\<exists>ev. trace (world_of (passes n io s)) = trace s @ ev
            \<and> (\<forall>b. WriterWrite b \<in> set ev \<longrightarrow> \<not> IsEmpty io b))
   \<and> (copyInternal io s = Some (err, t) \<longrightarrow>
        (\<exists>ev. trace t = trace s @ ev \<and> (\<forall>b. WriterWrite b \<in> set ev \<longrightarrow> \<not> IsEmpty io b)))"
proof (intro conjI impI)
  assume "Read io (reader s) = ((buffer, None), r')" "IsEmpty io buffer"
  then show "copyInternal_body io s =
        Continue (s\<lparr>reader := r',
           trace := trace s @ [ReaderRead, TimerUpdate, BufferIsEmpty buffer, BufferRelease buffer]\<rparr>)"
    by (simp add: copyInternal_body_def)
next
  show "\<exists>ev. trace (world_of (passes n io s)) = trace s @ ev
            \<and> (\<forall>b. WriterWrite b \<in> set ev \<longrightarrow> \<not> IsEmpty io b)"
    by (rule passes_trace)
next
  assume "copyInternal io s = Some (err, t)"
  then obtain m where "passes m io s = Return err t"
    using copyInternal_passes by blast
  with passes_trace [of m io s]
  show "\<exists>ev. trace t = trace s @ ev \<and> (\<forall>b. WriterWrite b \<in> set ev \<longrightarrow> \<not> IsEmpty io b)"
    by simp
qed

text \<open>
  A run over an empty chunk and the chunk \<open>a\<close>: only \<open>a\<close> is written.
\<close>

theorem empty_chunk_released_never_written_witness:
  "Read (list_io EOF [] 1) (reader (start [[], ''a''])) = (([], None), [''a''])
   \<and> IsEmpty (list_io EOF [] 1) []
   \<and> copyInternal_body (list_io EOF [] 1) (start [[], ''a'']) =
        Continue \<lparr>reader = [''a''], writer = [],
          trace = [ReaderRead, TimerUpdate, BufferIsEmpty [], BufferRelease []]\<rparr>
   \<and> copyInternal (list_io EOF [] 1) (start [[], ''a'']) =
        Some (Some EOF, \<lparr>reader = [], writer = [''a''],
          trace = [ReaderRead, TimerUpdate, BufferIsEmpty [], BufferRelease [],
                   ReaderRead, TimerUpdate, BufferIsEmpty ''a'', WriterWrite ''a'', BufferRelease ''a'',
                   ReaderRead]\<rparr>)
   \<and> WriterWrite ''a'' \<in> set [ReaderRead, TimerUpdate, BufferIsEmpty [], BufferRelease [],
                   ReaderRead, TimerUpdate, BufferIsEmpty ''a'', WriterWrite ''a'', BufferRelease ''a'',
                   ReaderRead]
   \<and> \<not> IsEmpty (list_io EOF [] 1) ''a''
   \<and> WriterWrite [] \<notin> set [ReaderRead, TimerUpdate, BufferIsEmpty [], BufferRelease [],
                   ReaderRead, TimerUpdate, BufferIsEmpty ''a'', WriterWrite ''a'', BufferRelease ''a'',
                   ReaderRead]"
proof -
  let ?io = "list_io EOF [] 1"
  let ?t = "\<lparr>reader = [], writer = [''a''],
          trace = [ReaderRead, TimerUpdate, BufferIsEmpty [], BufferRelease [],
                   ReaderRead, TimerUpdate, BufferIsEmpty ''a'', WriterWrite ''a'', BufferRelease ''a'',
                   ReaderRead]\<rparr>"
  have run: "copyInternal ?io (start [[], ''a'']) = Some (Some EOF, ?t)"
    by code_simp
  have rd: "Read ?io (reader (start [[], ''a''])) = (([], None), [''a''])"
    by (simp add: list_io_def start_def list_Read_def)
  have emp: "IsEmpty ?io []" "\<not> IsEmpty ?io ''a''"
    by (simp_all add: list_io_def)
  note inst = empty_chunk_released_never_written
    [where io = ?io and s = "start [[], ''a'']" and buffer = "[]" and r' = "[''a'']"
       and n = 0 and err = "Some EOF" and t = ?t]
  from inst rd emp(1)
  have body: "copyInternal_body ?io (start [[], ''a'']) =
        Continue ((start [[], ''a''])\<lparr>reader := [''a''],
           trace := trace (start [[], ''a'']) @ [ReaderRead, TimerUpdate, BufferIsEmpty [], BufferRelease []]\<rparr>)"
    by simp
  from inst run
  have tr: "\<exists>ev. trace ?t = trace (start [[], ''a'']) @ ev
            \<and> (\<forall>b. WriterWrite b \<in> set ev \<longrightarrow> \<not> IsEmpty ?io b)"
    by simp
  from tr have "WriterWrite [] \<notin> set (trace ?t)"
    using emp(1) by (auto simp: start_def)
  with body run rd emp show ?thesis
    by (simp add: start_def)
qed

subsection \<open>The factories\<close>

text \<open>
  C9. \<open>NewReader\<close> gives the scratch-buffer adapter a buffer of 32 KiB, and so does
  \<open>NewMergingReader\<close>, which is \<open>NewMergingReaderSize\<close> at 32 KiB; \<open>NewMergingReaderSize\<close>
  gives it the size asked for. \<open>NewMergingWriter\<close> is \<open>NewMergingWriterSize\<close> at 4096
  bytes, that is 4 KiB, and \<open>NewMergingWriterSize\<close> gives the merging writer a buffer of
  the size asked for.
\<close>

theorem default_capacities:
  "map_option length (Reader_buffer (NewReader (IoReader u))) = Some (32 * 1024)
   \<and> NewMergingReader r = NewMergingReaderSize r (32 * 1024)
   \<and> map_option length (Reader_buffer (NewMergingReader r)) = Some (32 * 1024)
   \<and> map_option length (Reader_buffer (NewMergingReaderSize r sz)) = Some (unat sz)
   \<and> NewMergingWriter w = NewMergingWriterSize w 4096
   \<and> map_option length (Writer_buffer (NewMergingWriter w)) = Some (4 * 1024)
   \<and> map_option length (Writer_buffer (NewMergingWriterSize w sz)) = Some (unat sz)"
  by (simp add: NewReader_def NewMergingReader_def NewMergingReaderSize_def
      NewMergingWriter_def NewMergingWriterSize_def)

text \<open>
  C8, as amended. On a handle that has the chunked read or write natively, \<open>NewReader\<close>
  and \<open>NewWriter\<close> return the passthrough adapter over that handle. It owns no buffer,
  and its \<open>Read\<close> or \<open>Write\<close> is the handle's own chunked read or write: the chunk, the
  error and the releases are the handle's, the byte read of the stream plays no part,
  and the adapter that remains is the passthrough adapter over the handle as the call
  left it. The merging factories test nothing: on every handle they return the
  buffer-owning adapter with a buffer of the size asked for (32 KiB and 4096 bytes by
  default).
\<close>

theorem native_passthrough:
  "NewReader (IoMultiBufferReader mr) = readerAdpater mr
   \<and> Reader_buffer (NewReader (IoMultiBufferReader mr)) = None
   \<and> Reader_Read raw native (NewReader (IoMultiBufferReader mr)) =
       (case native mr of ((chunk, err), mr') \<Rightarrow> ((chunk, err), NewReader (IoMultiBufferReader mr')))
   \<and> NewWriter (IoMultiBufferWriter mw) = writerAdapter mw
   \<and> Writer_buffer (NewWriter (IoMultiBufferWriter mw)) = None
   \<and> Writer_Write native_write other (NewWriter (IoMultiBufferWriter mw)) chunk' =
       (case native_write mw chunk' of (res, mw') \<Rightarrow> (res, NewWriter (IoMultiBufferWriter mw')))
   \<and> NewMergingReaderSize r sz = BytesToBufferReader r (replicate (unat sz) 0)
   \<and> NewMergingReader r = BytesToBufferReader r (replicate (32 * 1024) 0)
   \<and> NewMergingWriterSize w sz = mergingWriter w (replicate (unat sz) 0)
   \<and> NewMergingWriter w = mergingWriter w (replicate 4096 0)"
  by (simp add: NewReader_def NewWriter_def NewMergingReader_def NewMergingReaderSize_def
      NewMergingWriter_def NewMergingWriterSize_def Reader_Read_def Writer_Write_def)

text \<open>
  C8 as it is stated fails for the merging factories: on a handle with the native
  chunked contract, \<open>NewMergingReaderSize\<close> still allocates its 16 bytes and
  \<open>NewMergingWriter\<close> its 4096, and neither returns the passthrough adapter.
\<close>

theorem native_passthrough_counterexample:
  "NewMergingReaderSize (IoMultiBufferReader (7::nat) :: nat io_Reader) 16 \<noteq> readerAdpater 7
   \<and> map_option length
        (Reader_buffer (NewMergingReaderSize (IoMultiBufferReader (7::nat) :: nat io_Reader) 16)) = Some 16
   \<and> NewMergingWriter (IoMultiBufferWriter (7::nat) :: nat io_Writer) \<noteq> writerAdapter 7
   \<and> map_option length
        (Writer_buffer (NewMergingWriter (IoMultiBufferWriter (7::nat) :: nat io_Writer))) = Some 4096"
  by (simp add: NewMergingReaderSize_def NewMergingWriter_def NewMergingWriterSize_def)

subsection \<open>The round trip through the reader adapters\<close>














text \<open>
  The same turns computed step by step over a scratch buffer of four bytes, through the
  hold-over branch of the byte reader.
\<close>

lemma held_over_example:
  "read_each (bufferToBytesReader_Read (burst_Read 1) (burst_chunks 2))
     (ToBytesReader (NewMergingReaderSize (IoReader hello) 4)) [1, 3, 4] =
   Some [[104], [101, 108, 108], [111]]
   \<and> read_each (bufferToBytesReader_Read pausing_Read (\<lambda>s. (([], None), s)))
     (ToBytesReader (NewMergingReaderSize (IoReader (1, hello)) 4)) [2, 3] =
   Some [[104, 101], [108, 108, 111]]"
  by code_simp


text \<open>
  Nor does the round trip hold for a raw stream that may return nothing without an
  error for ever: the stream below delivers into a slice of three bytes, and answers the
  32 KiB scratch buffer with no bytes and no error every time, so that the read through
  the adapters never returns.
\<close>

lemma read_n_stuck_aux:
  assumes "read_n rd acc s n = Some y"
  shows "\<not> (length acc < n \<and> rd s (n - length acc) = (([], None), s))"
proof (rule read_n.raw_induct
    [where P = "\<lambda>rd acc s n y. \<not> (length acc < n \<and> rd s (n - length acc) = (([], None), s))",
     OF _ assms])
  fix f :: "'a raw_read \<Rightarrow> byte list \<Rightarrow> 'a \<Rightarrow> nat \<Rightarrow> (byte list \<times> error option \<times> 'a) option"
    and rd acc s n y
  assume IH: "\<And>rd acc s n y. f rd acc s n = Some y \<Longrightarrow>
      \<not> (length acc < n \<and> rd s (n - length acc) = (([], None), s))"
    and eq: "(if n \<le> length acc then Some (acc, None, s)
         else case rd s (n - length acc) of
                ((bs, Some e), s') \<Rightarrow> Some (acc @ bs, Some e, s')
              | ((bs, None), s') \<Rightarrow> f rd (acc @ bs) s' n) = Some y"
  show "\<not> (length acc < n \<and> rd s (n - length acc) = (([], None), s))"
  proof
    assume stuck: "length acc < n \<and> rd s (n - length acc) = (([], None), s)"
    with eq have "f rd acc s n = Some y" by simp
    from IH [OF this] stuck show False by simp
  qed
qed

lemma read_n_stuck:
  "length acc < n \<Longrightarrow> rd s (n - length acc) = (([], None), s) \<Longrightarrow> read_n rd acc s n = None"
  using read_n_stuck_aux [of rd acc s n] by (cases "read_n rd acc s n") auto

lemma shy_adapter_never_returns:
  "read_n shy_Read [] (stream_of (IoReader hello)) 3 = Some ([104, 101, 108], None, [108, 111])
   \<and> read_n (bufferToBytesReader_Read shy_Read (burst_chunks 0)) []
        (ToBytesReader (NewReader (IoReader hello))) 3 = None"
proof
  have "read_n shy_Read [104, 101, 108] [108, 111] 3 = Some ([104, 101, 108], None, [108, 111])"
    by (subst read_n.simps) simp
  then show "read_n shy_Read [] (stream_of (IoReader hello)) 3 =
      Some ([104, 101, 108], None, [108, 111])"
    by (subst read_n.simps) (simp add: shy_Read_def hello_def)
next
  have "bufferToBytesReader_Read shy_Read (burst_chunks 0)
          (ToBytesReader (NewReader (IoReader hello))) (3 - length ([] :: byte list)) =
        (([], None), ToBytesReader (NewReader (IoReader hello)))"
    by (simp add: ToBytesReader_def NewReader_def Reader_Read_def shy_Read_def)
  then show "read_n (bufferToBytesReader_Read shy_Read (burst_chunks 0)) []
        (ToBytesReader (NewReader (IoReader hello))) 3 = None"
    by (intro read_n_stuck) simp_all
qed

text \<open>
  And on a handle with the native chunked read the bytes are those of that read, not
  those of the handle's byte read, where the two differ.
\<close>

lemma native_read_decides:
  "map_option fst (read_n (burst_Read 1) [] (stream_of (IoMultiBufferReader hello)) 1) = Some [104]
   \<and> map_option fst
        (read_n (bufferToBytesReader_Read (burst_Read 1) zero_chunks) []
           (ToBytesReader (NewReader (IoMultiBufferReader hello))) 1) = Some [0]"
  by code_simp

end
